theory Spec2Isabelle
  imports Complex_Main "HOL-Library.Sublist" "HOL-Library.Product_Lexorder"
begin

section \<open>Strings\<close>

text \<open>
  A Python \<open>str\<close> is a sequence of Unicode code points. The model takes documents over
  the first 256 code points (Latin-1): a \<open>string\<close> is a \<open>char list\<close> and the character
  \<open>c\<close> stands for the code point \<open>of_char c\<close>. On these code points the built-ins the
  analyzer uses are the following.
\<close>

definition cp :: "char \<Rightarrow> nat" where
  "cp c = of_char c"

text \<open>
  \<open>str.isspace\<close> on one character, which is also the class \<open>\s\<close> of \<open>re\<close> on a \<open>str\<close>
  pattern and what \<open>str.strip()\<close> removes: TAB, LF, VT, FF, CR, the separators
  \<open>0x1C..0x1F\<close>, space, NEL \<open>0x85\<close> and NBSP \<open>0xA0\<close>.
\<close>

definition isspace :: "char \<Rightarrow> bool" where
  "isspace c = ((9 \<le> cp c \<and> cp c \<le> 13) \<or> (28 \<le> cp c \<and> cp c \<le> 32) \<or> cp c = 133 \<or> cp c = 160)"

text \<open>The class \<open>[A-Z]\<close>.\<close>

definition isupper_AZ :: "char \<Rightarrow> bool" where
  "isupper_AZ c = (65 \<le> cp c \<and> cp c \<le> 90)"

text \<open>The class \<open>\d\<close>: below 256 the only decimal digits are \<open>0..9\<close>.\<close>

definition isdigit :: "char \<Rightarrow> bool" where
  "isdigit c = (48 \<le> cp c \<and> cp c \<le> 57)"

text \<open>
  \<open>str.lower()\<close>: character by character; \<open>A..Z\<close> and the Latin-1 capitals
  \<open>0xC0..0xD6\<close>, \<open>0xD8..0xDE\<close> move up by 32, everything else stays.
\<close>

definition lower_char :: "char \<Rightarrow> char" where
  "lower_char c =
     (if (65 \<le> cp c \<and> cp c \<le> 90) \<or> (192 \<le> cp c \<and> cp c \<le> 214) \<or> (216 \<le> cp c \<and> cp c \<le> 222)
      then char_of (cp c + 32) else c)"

definition lower :: "string \<Rightarrow> string" where
  "lower s = map lower_char s"

text \<open>\<open>str.strip()\<close>: drops the leading and the trailing white space.\<close>

definition strip :: "string \<Rightarrow> string" where
  "strip s = rev (dropWhile isspace (rev (dropWhile isspace s)))"

text \<open>
  Python's \<open>kw in s\<close> on strings is \<^const>\<open>sublist\<close>: \<open>kw\<close> occurs in \<open>s\<close> as a
  contiguous block.

  Case-insensitive containment, in the words of the specification: some contiguous block
  of the clause equals the keyword up to letter case.
\<close>

definition contains_ci :: "string \<Rightarrow> string \<Rightarrow> bool" where
  "contains_ci kw clause = (\<exists>s. sublist s clause \<and> lower s = lower kw)"

section \<open>Clause splitter\<close>

text \<open>
  \<open>split_into_clauses\<close> is \<open>re.split(pattern, text.strip())\<close> with the pattern
  \<^verbatim>\<open>(?<=\.)\s+(?=[A-Z])|\n|\d+\.\s+\<close>.
  The regular expressions needed are built from character classes: one character of a
  class, a greedy \<open>+\<close> over a class, look-behind and look-ahead for one character,
  sequence and ordered alternative.
\<close>

datatype cls = Space | Upper | Digit | Lit char

fun in_cls :: "cls \<Rightarrow> char \<Rightarrow> bool" where
  "in_cls Space c = isspace c"
| "in_cls Upper c = isupper_AZ c"
| "in_cls Digit c = isdigit c"
| "in_cls (Lit a) c = (c = a)"

datatype rx = One cls | Many cls | Behind cls | Ahead cls | Seq rx rx | Alt rx rx

text \<open>
  The backtracking matcher of \<open>re\<close>: \<open>rx_ends r s i\<close> lists the positions at which a
  match of \<open>r\<close> that starts at position \<open>i\<close> of \<open>s\<close> can end, in the order in which the
  matcher tries them (a greedy \<open>+\<close> longest first, the left alternative before the
  right one). The match it reports is the first of the list.
\<close>

fun rx_ends :: "rx \<Rightarrow> string \<Rightarrow> nat \<Rightarrow> nat list" where
  "rx_ends (One c) s i = (if i < length s \<and> in_cls c (s ! i) then [Suc i] else [])"
| "rx_ends (Many c) s i =
     (let n = length (takeWhile (in_cls c) (drop i s)) in rev [Suc i ..< Suc (i + n)])"
| "rx_ends (Behind c) s i = (if 0 < i \<and> i \<le> length s \<and> in_cls c (s ! (i - 1)) then [i] else [])"
| "rx_ends (Ahead c) s i = (if i < length s \<and> in_cls c (s ! i) then [i] else [])"
| "rx_ends (Seq a b) s i = concat (map (rx_ends b s) (rx_ends a s i))"
| "rx_ends (Alt a b) s i = rx_ends a s i @ rx_ends b s i"

text \<open>\<open>search\<close>: the leftmost position from \<open>i\<close> on at which the pattern matches.\<close>

function search :: "rx \<Rightarrow> string \<Rightarrow> nat \<Rightarrow> (nat \<times> nat) option" where
  "search r s i =
     (if length s < i then None
      else case rx_ends r s i of
             e # _ \<Rightarrow> Some (i, e)
           | [] \<Rightarrow> search r s (Suc i))"
  by pat_completeness auto
termination
  by (relation "measure (\<lambda>(r, s, i). Suc (length s) - i)") auto

declare search.simps [simp del]

text \<open>
  The loop of \<open>re.split\<close> (no groups, no \<open>maxsplit\<close>): the piece before each match is
  appended and the search goes on behind the match; the rest of the string is the last
  piece. How \<open>re.split\<close> steps over an empty match is not modelled: the pattern of the
  splitter consumes a character in every match (\<open>boundary_match_bounds\<close> below), and
  the loop of the model ends at a match that would not.
\<close>

function split_from :: "rx \<Rightarrow> string \<Rightarrow> nat \<Rightarrow> string list" where
  "split_from r s lst =
     (case search r s lst of
        None \<Rightarrow> [drop lst s]
      | Some (b, e) \<Rightarrow>
          if lst < e \<and> e \<le> length s
          then take (b - lst) (drop lst s) # split_from r s e
          else [drop lst s])"
  by pat_completeness auto
termination
  by (relation "measure (\<lambda>(r, s, lst). length s - lst)") auto

declare split_from.simps [simp del]

definition re_split :: "rx \<Rightarrow> string \<Rightarrow> string list" where
  "re_split r s = split_from r s 0"

definition clause_boundary :: rx where
  "clause_boundary =
     Alt (Seq (Behind (Lit CHR ''.'')) (Seq (Many Space) (Ahead Upper)))
      (Alt (One (Lit CHR 0x0A))
        (Seq (Many Digit) (Seq (One (Lit CHR ''.'')) (Many Space))))"

definition split_into_clauses :: "string \<Rightarrow> string list" where
  "split_into_clauses text = re_split clause_boundary (strip text)"

section \<open>Clause classifier\<close>

text \<open>
  \<open>clause_keywords\<close> is a \<open>dict\<close> literal; iterating \<open>.items()\<close> follows the order in
  which the keys are written, so the table is an association list.
\<close>

definition clause_keywords :: "(string \<times> string list) list" where
  "clause_keywords =
     [(''Obligation'', [''shall'', ''must'', ''agree to'']),
      (''Rights'', [''reserves the right'', ''may'']),
      (''Confidentiality'', [''confidential'', ''non-disclosure'']),
      (''Risk'', [''liable'', ''indemnify'', ''at your own risk''])]"

text \<open>The inner loop of \<open>classify_clause\<close>: does some keyword of the list occur?\<close>

fun any_keyword :: "string list \<Rightarrow> string \<Rightarrow> bool" where
  "any_keyword [] clause = False"
| "any_keyword (kw # keywords) clause =
     (if sublist (lower kw) (lower clause) then True else any_keyword keywords clause)"

text \<open>The outer loop, returning from inside at the first hit.\<close>

fun classify_loop :: "(string \<times> string list) list \<Rightarrow> string \<Rightarrow> string" where
  "classify_loop [] clause = ''Other''"
| "classify_loop ((category, keywords) # rest) clause =
     (if any_keyword keywords clause then category else classify_loop rest clause)"

definition classify_clause :: "string \<Rightarrow> string" where
  "classify_clause clause = classify_loop clause_keywords clause"

section \<open>Risk grader\<close>

definition risk_keywords :: "string list" where
  "risk_keywords = [''liable'', ''indemnify'', ''terminate'', ''breach'']"

definition grade_clause :: "string \<Rightarrow> string \<times> int" where
  "grade_clause clause =
     (let score = sum_list [1. kw \<leftarrow> risk_keywords, sublist kw (lower clause)];
          importance = (if score \<ge> 2 then ''High'' else if score = 1 then ''Medium'' else ''Low'')
      in (importance, score))"

section \<open>Boilerplate detector\<close>

definition boilerplate_templates :: "string list" where
  "boilerplate_templates =
     [''This Agreement shall be governed by the laws of the State of'',
      ''The parties agree to the following terms and conditions'']"

subsection \<open>\<open>difflib.SequenceMatcher\<close>\<close>

text \<open>
  \<open>SequenceMatcher(None, a, b)\<close>: no junk predicate, \<open>autojunk\<close> left at its default.
  \<open>b2j\<close> maps a character to the ascending list of its positions in \<open>b\<close>; when \<open>b\<close> has
  at least 200 characters, the entries of the characters that occur more than
  \<open>len(b) // 100 + 1\<close> times are deleted.
\<close>

definition popular :: "string \<Rightarrow> char \<Rightarrow> bool" where
  "popular b c = (200 \<le> length b \<and> length b div 100 + 1 < count_list b c)"

definition b2j :: "string \<Rightarrow> char \<Rightarrow> nat list" where
  "b2j b c = (if popular b c then [] else [j \<leftarrow> [0..<length b]. b ! j = c])"

text \<open>
  A match \<open>(i, j, k)\<close> says \<open>a[i:i+k] == b[j:j+k]\<close>.

  The inner loop of \<open>find_longest_match\<close> over the positions \<open>j\<close> of \<open>a[i]\<close> in \<open>b\<close>.
  \<open>j2len\<close> (the row before) and \<open>newj2len\<close> are dictionaries from positions to lengths;
  \<open>j2len.get(j-1, 0)\<close> at \<open>j = 0\<close> asks for the key \<open>-1\<close>, which is never there.
\<close>

type_synonym match = "nat \<times> nat \<times> nat"

fun row_loop ::
  "nat list \<Rightarrow> nat \<Rightarrow> nat \<Rightarrow> nat \<Rightarrow> (nat \<rightharpoonup> nat) \<Rightarrow> (nat \<rightharpoonup> nat) \<times> match \<Rightarrow> (nat \<rightharpoonup> nat) \<times> match" where
  "row_loop [] i blo bhi j2len st = st"
| "row_loop (j # js) i blo bhi j2len (newj2len, (besti, bestj, bestsize)) =
     (if j < blo then row_loop js i blo bhi j2len (newj2len, (besti, bestj, bestsize))
      else if bhi \<le> j then (newj2len, (besti, bestj, bestsize))
      else
        let k = (if j = 0 then 0 else case j2len (j - 1) of None \<Rightarrow> 0 | Some v \<Rightarrow> v) + 1
        in row_loop js i blo bhi j2len
             (newj2len(j \<mapsto> k),
              if bestsize < k then (i + 1 - k, j + 1 - k, k) else (besti, bestj, bestsize)))"

text \<open>The outer loop, over \<open>i\<close> in \<open>range(alo, ahi)\<close>.\<close>

fun rows_loop ::
  "string \<Rightarrow> string \<Rightarrow> nat list \<Rightarrow> nat \<Rightarrow> nat \<Rightarrow> (nat \<rightharpoonup> nat) \<Rightarrow> match \<Rightarrow> match" where
  "rows_loop a b [] blo bhi j2len best = best"
| "rows_loop a b (i # is) blo bhi j2len best =
     (case row_loop (b2j b (a ! i)) i blo bhi j2len (Map.empty, best) of
        (newj2len, best') \<Rightarrow> rows_loop a b is blo bhi newj2len best')"

text \<open>
  The two loops that extend the best match by further equal characters on each side
  (they matter when popular characters were taken out of \<open>b2j\<close>). The two loops after
  them, guarded by \<open>isbjunk\<close>, never run: without a junk predicate no character is junk.
\<close>

function extend_left :: "string \<Rightarrow> string \<Rightarrow> nat \<Rightarrow> nat \<Rightarrow> match \<Rightarrow> match" where
  "extend_left a b alo blo (besti, bestj, bestsize) =
     (if alo < besti \<and> blo < bestj \<and> a ! (besti - 1) = b ! (bestj - 1)
      then extend_left a b alo blo (besti - 1, bestj - 1, bestsize + 1)
      else (besti, bestj, bestsize))"
  by pat_completeness auto
termination
  by (relation "measure (\<lambda>(a, b, alo, blo, besti, bestj, bestsize). besti)") auto

declare extend_left.simps [simp del]

function extend_right :: "string \<Rightarrow> string \<Rightarrow> nat \<Rightarrow> nat \<Rightarrow> match \<Rightarrow> match" where
  "extend_right a b ahi bhi (besti, bestj, bestsize) =
     (if besti + bestsize < ahi \<and> bestj + bestsize < bhi \<and> a ! (besti + bestsize) = b ! (bestj + bestsize)
      then extend_right a b ahi bhi (besti, bestj, bestsize + 1)
      else (besti, bestj, bestsize))"
  by pat_completeness auto
termination
  by (relation "measure (\<lambda>(a, b, ahi, bhi, besti, bestj, bestsize). ahi - (besti + bestsize))") auto

declare extend_right.simps [simp del]

definition find_longest_match :: "string \<Rightarrow> string \<Rightarrow> nat \<Rightarrow> nat \<Rightarrow> nat \<Rightarrow> nat \<Rightarrow> match" where
  "find_longest_match a b alo ahi blo bhi =
     extend_right a b ahi bhi
       (extend_left a b alo blo
         (rows_loop a b [alo..<ahi] blo bhi Map.empty (alo, blo, 0)))"

text \<open>
  Facts about \<open>find_longest_match\<close> that the loop of \<open>get_matching_blocks\<close> rests on:
  a match that is not empty lies inside \<open>a[alo:ahi]\<close>.
\<close>

lemma row_loop_bounds:
  assumes "alo \<le> i" "i < ahi"
    and "\<And>j v. j2len j = Some v \<Longrightarrow> v \<le> i - alo"
    and "\<And>j v. new j = Some v \<Longrightarrow> v \<le> Suc i - alo"
    and "alo \<le> besti" "besti + bestsize \<le> ahi"
    and "row_loop js i blo bhi j2len (new, (besti, bestj, bestsize)) = (new', (besti', bestj', bestsize'))"
  shows "(\<forall>j v. new' j = Some v \<longrightarrow> v \<le> Suc i - alo) \<and> alo \<le> besti' \<and> besti' + bestsize' \<le> ahi"
  using assms
proof (induction js arbitrary: new besti bestj bestsize)
  case Nil
  then show ?case by auto
next
  case (Cons j js)
  show ?case
  proof (cases "j < blo")
    case True
    with Cons.prems(7) have "row_loop js i blo bhi j2len (new, (besti, bestj, bestsize)) = (new', (besti', bestj', bestsize'))"
      by simp
    from Cons.IH[OF Cons.prems(1-6) this] show ?thesis .
  next
    case False
    note nblo = this
    show ?thesis
    proof (cases "bhi \<le> j")
      case True
      with nblo Cons.prems show ?thesis by auto
    next
      case False
      define k where "k = (if j = 0 then 0 else case j2len (j - 1) of None \<Rightarrow> 0 | Some v \<Rightarrow> v) + 1"
      have kb: "k \<le> Suc i - alo"
        using Cons.prems(1,3) by (auto simp: k_def split: option.splits dest!: Cons.prems(3))
      have k1: "1 \<le> k" by (simp add: k_def)
      have new2: "\<And>j' v. (new(j \<mapsto> k)) j' = Some v \<Longrightarrow> v \<le> Suc i - alo"
        using kb Cons.prems(4) by (auto split: if_splits)
      show ?thesis
      proof (cases "bestsize < k")
        case True
        with nblo False Cons.prems(7)
        have run: "row_loop js i blo bhi j2len (new(j \<mapsto> k), (i + 1 - k, j + 1 - k, k)) = (new', (besti', bestj', bestsize'))"
          by (simp add: k_def Let_def)
        have "alo \<le> i + 1 - k" "i + 1 - k + k \<le> ahi"
          using kb k1 Cons.prems(1,2) by auto
        from Cons.IH[OF Cons.prems(1,2,3) new2 this run] show ?thesis by simp
      next
        case nlt: False
        with nblo False Cons.prems(7)
        have run: "row_loop js i blo bhi j2len (new(j \<mapsto> k), (besti, bestj, bestsize)) = (new', (besti', bestj', bestsize'))"
          by (simp add: k_def Let_def)
        from Cons.IH[OF Cons.prems(1,2,3) new2 Cons.prems(5,6) run] show ?thesis by simp
      qed
    qed
  qed
qed

lemma rows_loop_bounds:
  assumes "alo \<le> i0"
    and "\<And>j v. j2len j = Some v \<Longrightarrow> v \<le> i0 - alo"
    and "alo \<le> besti" "besti + bestsize \<le> ahi"
    and "rows_loop a b [i0..<ahi] blo bhi j2len (besti, bestj, bestsize) = (besti', bestj', bestsize')"
  shows "alo \<le> besti' \<and> besti' + bestsize' \<le> ahi"
  using assms
proof (induction "ahi - i0" arbitrary: i0 j2len besti bestj bestsize)
  case 0
  then show ?case by simp
next
  case (Suc n)
  then have lt: "i0 < ahi" by simp
  obtain new bi bj bs where
    row: "row_loop (b2j b (a ! i0)) i0 blo bhi j2len (Map.empty, (besti, bestj, bestsize)) = (new, (bi, bj, bs))"
    by (metis prod_cases3)
  have rb: "(\<forall>j v. new j = Some v \<longrightarrow> v \<le> Suc i0 - alo) \<and> alo \<le> bi \<and> bi + bs \<le> ahi"
    by (rule row_loop_bounds[OF Suc.prems(1) lt Suc.prems(2) _ Suc.prems(3,4) row]) simp_all
  from Suc.prems(5) lt row
  have run: "rows_loop a b [Suc i0..<ahi] blo bhi new (bi, bj, bs) = (besti', bestj', bestsize')"
    by (simp add: upt_rec[of i0])
  have "n = ahi - Suc i0" using Suc.hyps(2) by simp
  from Suc.hyps(1)[OF this _ _ _ _ run] rb Suc.prems(1) show ?case
    by auto
qed

lemma extend_left_bounds:
  "alo \<le> besti \<Longrightarrow> besti + bestsize \<le> ahi \<Longrightarrow>
   extend_left a b alo blo (besti, bestj, bestsize) = (i, j, k) \<Longrightarrow> alo \<le> i \<and> i + k \<le> ahi"
proof (induction a b alo blo "(besti, bestj, bestsize)" arbitrary: besti bestj bestsize rule: extend_left.induct)
  case (1 a b alo blo besti bestj bestsize)
  show ?case
  proof (cases "alo < besti \<and> blo < bestj \<and> a ! (besti - 1) = b ! (bestj - 1)")
    case True
    with "1.prems"(3) have run: "extend_left a b alo blo (besti - 1, bestj - 1, bestsize + 1) = (i, j, k)"
      using extend_left.simps[of a b alo blo besti bestj bestsize] by simp
    have "alo \<le> besti - 1" "besti - 1 + (bestsize + 1) \<le> ahi"
      using True "1.prems"(1,2) by auto
    from "1.hyps"[OF True this run] show ?thesis .
  next
    case False
    with "1.prems" extend_left.simps[of a b alo blo besti bestj bestsize] show ?thesis by auto
  qed
qed

lemma extend_right_bounds:
  "alo \<le> besti \<Longrightarrow> besti + bestsize \<le> ahi \<Longrightarrow>
   extend_right a b ahi bhi (besti, bestj, bestsize) = (i, j, k) \<Longrightarrow> alo \<le> i \<and> i + k \<le> ahi"
proof (induction a b ahi bhi "(besti, bestj, bestsize)" arbitrary: besti bestj bestsize rule: extend_right.induct)
  case (1 a b ahi bhi besti bestj bestsize)
  show ?case
  proof (cases "besti + bestsize < ahi \<and> bestj + bestsize < bhi \<and> a ! (besti + bestsize) = b ! (bestj + bestsize)")
    case True
    with "1.prems"(3) have run: "extend_right a b ahi bhi (besti, bestj, bestsize + 1) = (i, j, k)"
      using extend_right.simps[of a b ahi bhi besti bestj bestsize] by simp
    have "besti + (bestsize + 1) \<le> ahi"
      using True by simp
    from "1.hyps"[OF True "1.prems"(1) this run] show ?thesis .
  next
    case False
    with "1.prems" extend_right.simps[of a b ahi bhi besti bestj bestsize] show ?thesis by auto
  qed
qed

lemma find_longest_match_bounds:
  assumes "find_longest_match a b alo ahi blo bhi = (i, j, k)" and "k \<noteq> 0"
  shows "alo \<le> i \<and> i + k \<le> ahi"
proof (cases "alo \<le> ahi")
  case True
  obtain i1 j1 k1 where r: "rows_loop a b [alo..<ahi] blo bhi Map.empty (alo, blo, 0) = (i1, j1, k1)"
    by (metis prod_cases3)
  have b1: "alo \<le> i1 \<and> i1 + k1 \<le> ahi"
    by (rule rows_loop_bounds[OF _ _ _ _ r]) (use True in simp_all)
  obtain i2 j2 k2 where l: "extend_left a b alo blo (i1, j1, k1) = (i2, j2, k2)"
    by (metis prod_cases3)
  have b2: "alo \<le> i2 \<and> i2 + k2 \<le> ahi"
    by (rule extend_left_bounds[OF _ _ l]) (use b1 in simp_all)
  from assms(1) have e: "extend_right a b ahi bhi (i2, j2, k2) = (i, j, k)"
    by (simp add: find_longest_match_def r l)
  show ?thesis
    by (rule extend_right_bounds[OF _ _ e]) (use b2 in simp_all)
next
  case False
  then have "find_longest_match a b alo ahi blo bhi = (alo, blo, 0)"
    by (simp add: find_longest_match_def extend_left.simps[of _ _ _ _ alo] extend_right.simps[of _ _ _ _ alo])
  with assms show ?thesis by simp
qed

text \<open>
  The loop of \<open>get_matching_blocks\<close>. \<open>queue\<close> is used as a stack (\<open>pop()\<close> and
  \<open>append\<close> work at the end of the Python list); its top is the head of the list here.
\<close>

function blocks_loop ::
  "string \<Rightarrow> string \<Rightarrow> (nat \<times> nat \<times> nat \<times> nat) list \<Rightarrow> match list \<Rightarrow> match list" where
  "blocks_loop a b [] matching_blocks = matching_blocks"
| "blocks_loop a b ((alo, ahi, blo, bhi) # queue) matching_blocks =
     (case find_longest_match a b alo ahi blo bhi of
        (i, j, k) \<Rightarrow>
          if k \<noteq> 0 then
            blocks_loop a b
              ((if i + k < ahi \<and> j + k < bhi then [(i + k, ahi, j + k, bhi)] else []) @
               (if alo < i \<and> blo < j then [(alo, i, blo, j)] else []) @ queue)
              (matching_blocks @ [(i, j, k)])
          else blocks_loop a b queue matching_blocks)"
  by pat_completeness auto
termination
proof (relation "measure (\<lambda>(a, b, queue, bs). \<Sum>(alo, ahi, blo, bhi) \<leftarrow> queue. 2 * (ahi - alo) + 1)", goal_cases)
  case 1
  then show ?case by simp
next
  case (2 a b alo ahi blo bhi queue matching_blocks i y j k)
  then have flm: "find_longest_match a b alo ahi blo bhi = (i, j, k)" and k: "k \<noteq> 0"
    by simp_all
  from find_longest_match_bounds[OF flm k] k show ?case by auto
next
  case 3
  then show ?case by simp
qed

declare blocks_loop.simps [simp del]

text \<open>
  The rest of \<open>get_matching_blocks\<close>: the blocks are sorted, adjacent blocks are merged
  and the sentinel \<open>(la, lb, 0)\<close> is appended.
\<close>

fun collapse_loop :: "match list \<Rightarrow> match \<Rightarrow> match list \<Rightarrow> match list \<times> match" where
  "collapse_loop [] (i1, j1, k1) non_adjacent = (non_adjacent, (i1, j1, k1))"
| "collapse_loop ((i2, j2, k2) # rest) (i1, j1, k1) non_adjacent =
     (if i1 + k1 = i2 \<and> j1 + k1 = j2 then collapse_loop rest (i1, j1, k1 + k2) non_adjacent
      else collapse_loop rest (i2, j2, k2)
             (if k1 \<noteq> 0 then non_adjacent @ [(i1, j1, k1)] else non_adjacent))"

definition get_matching_blocks :: "string \<Rightarrow> string \<Rightarrow> match list" where
  "get_matching_blocks a b =
     (let la = length a; lb = length b;
          matching_blocks = sort (blocks_loop a b [(0, la, 0, lb)] [])
      in case collapse_loop matching_blocks (0, 0, 0) [] of
           (non_adjacent, (i1, j1, k1)) \<Rightarrow>
             (if k1 \<noteq> 0 then non_adjacent @ [(i1, j1, k1)] else non_adjacent) @ [(la, lb, 0)])"

text \<open>
  \<open>ratio()\<close> is \<open>2.0 * matches / length\<close>, a binary64 number in Python, and the detector
  compares it with \<open>0.8\<close>. The model computes the quotient exactly, as a rational. The
  comparison comes out the same: \<open>2.0 * matches\<close> is exact, the division rounds
  monotonically, so a quotient of at most \<open>4/5\<close> rounds to at most the binary64 number
  \<open>0.8\<close>, and a quotient above \<open>4/5\<close> is above it by at least \<open>1 / (5 * length)\<close>,
  far more than the rounding error for any string that fits in memory.
\<close>

definition ratio :: "string \<Rightarrow> string \<Rightarrow> rat" where
  "ratio a b =
     (let matches = sum_list (map (\<lambda>(i, j, k). k) (get_matching_blocks a b));
          len = length a + length b
      in if len \<noteq> 0 then 2 * of_nat matches / of_nat len else 1)"

fun template_loop :: "string list \<Rightarrow> string \<Rightarrow> bool" where
  "template_loop [] clause = False"
| "template_loop (template # rest) clause =
     (if 0.8 < ratio (lower clause) (lower template) then True else template_loop rest clause)"

definition detect_boilerplate :: "string \<Rightarrow> bool" where
  "detect_boilerplate clause = template_loop boilerplate_templates clause"

section \<open>Rewrite advisor\<close>

definition rewrite_clause :: "string \<Rightarrow> string" where
  "rewrite_clause clause =
     (let clause_lower = lower clause in
      if sublist ''indemnify'' clause_lower then ''Consider softening indemnity to mutual responsibility.''
      else if sublist ''liable'' clause_lower then ''Clarify or limit liability language.''
      else ''Clause appears clear.'')"

section \<open>External models\<close>

text \<open>
  The sentiment, emotion and summarization pipelines and the date search are not part of
  the analyzer: they are parameters of the model, deterministic functions of the text they
  are given. A call either raises (\<open>Inl\<close>) or returns what the library returns: a list of
  \<open>(label, score)\<close> entries, a list of such lists (\<open>return_all_scores=True\<close>), a list of
  summaries, and \<open>None\<close> or a list of \<open>(matched text, datetime)\<close> pairs. Scores are finite
  binary64 numbers, which \<open>max\<close> only compares; they are rationals here. \<open>strftime\<close>
  stands for \<open>datetime.strftime("%Y-%m-%d")\<close>.
\<close>

datatype error = ModelFailure string | IndexError | ValueError

record 'd models =
  sentiment_classifier :: "string \<Rightarrow> error + (string \<times> rat) list"
  emotion_classifier :: "string \<Rightarrow> error + (string \<times> rat) list list"
  summarizer :: "string \<Rightarrow> error + string list"
  search_dates :: "string \<Rightarrow> error + (string \<times> 'd) list option"
  strftime :: "'d \<Rightarrow> string"

text \<open>\<open>xs[0]\<close> raises \<open>IndexError\<close> on an empty list.\<close>

definition first_item :: "'a list \<Rightarrow> error + 'a" where
  "first_item xs = (case xs of [] \<Rightarrow> Inl IndexError | x # _ \<Rightarrow> Inr x)"

text \<open>
  \<open>max(xs, key=score)\<close>: the first entry of maximal score; \<open>ValueError\<close> on an empty
  list.
\<close>

fun max_loop :: "string \<times> rat \<Rightarrow> (string \<times> rat) list \<Rightarrow> string \<times> rat" where
  "max_loop best [] = best"
| "max_loop best (x # xs) = max_loop (if snd best < snd x then x else best) xs"

definition max_by_score :: "(string \<times> rat) list \<Rightarrow> error + string \<times> rat" where
  "max_by_score xs = (case xs of [] \<Rightarrow> Inl ValueError | x # rest \<Rightarrow> Inr (max_loop x rest))"

section \<open>Timeline extractor\<close>

definition extract_timeline :: "'d models \<Rightarrow> string \<Rightarrow> error + (string \<times> string) list" where
  "extract_timeline m clause =
     (case search_dates m clause of
        Inl e \<Rightarrow> Inl e
      | Inr None \<Rightarrow> Inr []
      | Inr (Some []) \<Rightarrow> Inr []
      | Inr (Some (d # ds)) \<Rightarrow> Inr (map (\<lambda>d. (fst d, strftime m (snd d))) (d # ds)))"

section \<open>Tone analyzer and summarizer\<close>

definition analyze_tone :: "'d models \<Rightarrow> string \<Rightarrow> error + string \<times> string" where
  "analyze_tone m text =
     (let text = take 512 text in
      case sentiment_classifier m text of
        Inl e \<Rightarrow> Inl e
      | Inr res \<Rightarrow>
         (case first_item res of
            Inl e \<Rightarrow> Inl e
          | Inr entry \<Rightarrow>
             (let sentiment_result = lower (fst entry) in
              case emotion_classifier m text of
                Inl e \<Rightarrow> Inl e
              | Inr res' \<Rightarrow>
                 (case first_item res' of
                    Inl e \<Rightarrow> Inl e
                  | Inr emotion_scores \<Rightarrow>
                     (case max_by_score emotion_scores of
                        Inl e \<Rightarrow> Inl e
                      | Inr top_entry \<Rightarrow> Inr (sentiment_result, lower (fst top_entry)))))))"

definition summarize :: "'d models \<Rightarrow> string \<Rightarrow> error + string" where
  "summarize m text =
     (let max_len = 1024 in
      case summarizer m (take max_len text) of
        Inl e \<Rightarrow> Inl e
      | Inr res \<Rightarrow> first_item res)"

section \<open>Orchestrator\<close>

record ClauseResult =
  clause_num :: nat
  clause_text :: string
  category :: string
  importance :: string
  risk_score :: int
  dates :: "(string \<times> string) list"
  boilerplate :: bool
  sentiment :: string
  tone :: string
  rewrite_suggestion :: string

text \<open>
  The body of the loop of \<open>analyze_document\<close> for a clause that is kept. Of the six
  steps only the timeline extractor and the tone analyzer can raise, in this order.
\<close>

definition analyze_clause :: "'d models \<Rightarrow> nat \<Rightarrow> string \<Rightarrow> error + ClauseResult" where
  "analyze_clause m i clause =
     (case extract_timeline m clause of
        Inl e \<Rightarrow> Inl e
      | Inr ds \<Rightarrow>
         (case analyze_tone m clause of
            Inl e \<Rightarrow> Inl e
          | Inr (s, t) \<Rightarrow>
              Inr \<lparr>clause_num = i, clause_text = clause,
                   category = classify_clause clause,
                   importance = fst (grade_clause clause),
                   risk_score = snd (grade_clause clause),
                   dates = ds,
                   boilerplate = detect_boilerplate clause,
                   sentiment = s, tone = t,
                   rewrite_suggestion = rewrite_clause clause\<rparr>))"

text \<open>
  The loop over \<open>enumerate(clauses, 1)\<close>; \<open>results\<close> is the list built so far. An
  exception leaves the function, and \<open>results\<close> with it.
\<close>

fun analyze_loop :: "'d models \<Rightarrow> (nat \<times> string) list \<Rightarrow> ClauseResult list \<Rightarrow> error + ClauseResult list" where
  "analyze_loop m [] results = Inr results"
| "analyze_loop m ((i, clause) # rest) results =
     (if strip clause = [] then analyze_loop m rest results
      else case analyze_clause m i clause of
             Inl e \<Rightarrow> Inl e
           | Inr r \<Rightarrow> analyze_loop m rest (results @ [r]))"

definition analyze_document :: "'d models \<Rightarrow> string \<Rightarrow> error + ClauseResult list" where
  "analyze_document m text = analyze_loop m (enumerate 1 (split_into_clauses text)) []"

section \<open>Properties of the classifier, the grader and the rewrite advisor\<close>

text \<open>
  The containment test of the code, \<open>kw.lower() in clause.lower()\<close>, is case-insensitive
  containment.
\<close>

lemma contains_ci_iff: "contains_ci kw clause = sublist (lower kw) (lower clause)"
  unfolding contains_ci_def lower_def by (metis map_mono_sublist sublist_map_rightE)

lemma any_keyword_2:
  "any_keyword [a, b] clause = (contains_ci a clause \<or> contains_ci b clause)"
  by (simp add: contains_ci_iff)

lemma any_keyword_3:
  "any_keyword [a, b, c] clause = (contains_ci a clause \<or> contains_ci b clause \<or> contains_ci c clause)"
  by (simp add: contains_ci_iff)

lemma classify_loop_4:
  "classify_loop [(c1, k1), (c2, k2), (c3, k3), (c4, k4)] clause =
     (if any_keyword k1 clause then c1
      else if any_keyword k2 clause then c2
      else if any_keyword k3 clause then c3
      else if any_keyword k4 clause then c4
      else ''Other'')"
  by simp

text \<open>
  Claim C2. \<open>classify_clause\<close> returns the first category, in the order Obligation,
  Rights, Confidentiality, Risk, one of whose keywords is contained in the clause
  case-insensitively, and \<open>Other\<close> when no keyword of any category is; on
  \<open>The Employee shall maintain confidentiality.\<close> it returns \<open>Obligation\<close>.
\<close>

theorem classify_clause_first_match:
  "classify_clause clause =
     (if contains_ci ''shall'' clause \<or> contains_ci ''must'' clause \<or> contains_ci ''agree to'' clause
        then ''Obligation''
      else if contains_ci ''reserves the right'' clause \<or> contains_ci ''may'' clause
        then ''Rights''
      else if contains_ci ''confidential'' clause \<or> contains_ci ''non-disclosure'' clause
        then ''Confidentiality''
      else if contains_ci ''liable'' clause \<or> contains_ci ''indemnify'' clause
              \<or> contains_ci ''at your own risk'' clause
        then ''Risk''
      else ''Other'')
   \<and> classify_clause ''The Employee shall maintain confidentiality.'' = ''Obligation''"
proof (rule conjI)
  show "classify_clause clause =
     (if contains_ci ''shall'' clause \<or> contains_ci ''must'' clause \<or> contains_ci ''agree to'' clause
        then ''Obligation''
      else if contains_ci ''reserves the right'' clause \<or> contains_ci ''may'' clause
        then ''Rights''
      else if contains_ci ''confidential'' clause \<or> contains_ci ''non-disclosure'' clause
        then ''Confidentiality''
      else if contains_ci ''liable'' clause \<or> contains_ci ''indemnify'' clause
              \<or> contains_ci ''at your own risk'' clause
        then ''Risk''
      else ''Other'')"
    by (simp only: classify_clause_def clause_keywords_def classify_loop_4 any_keyword_3 any_keyword_2)
  show "classify_clause ''The Employee shall maintain confidentiality.'' = ''Obligation''"
    by code_simp
qed

lemma score_count:
  assumes "distinct kws"
  shows "sum_list [1. kw \<leftarrow> kws, P kw] = int (card {kw \<in> set kws. P kw})"
proof -
  have "sum_list [1::int. kw \<leftarrow> kws, P kw] = int (length (filter P kws))"
    by (induction kws) simp_all
  moreover have "{kw \<in> set kws. P kw} = set (filter P kws)"
    by auto
  moreover have "card (set (filter P kws)) = length (filter P kws)"
    by (rule distinct_card) (use assms in simp)
  ultimately show ?thesis by simp
qed

text \<open>
  Claim C3. The score of \<open>grade_clause\<close> is the number of the keywords \<open>liable\<close>,
  \<open>indemnify\<close>, \<open>terminate\<close>, \<open>breach\<close> that occur in the lower-cased clause, each
  counted once; the importance is \<open>High\<close> from 2 on, \<open>Medium\<close> at 1 and \<open>Low\<close> at 0; the
  clause of the specification scores 3 and is \<open>High\<close>.
\<close>

theorem grade_clause_counts_keywords:
  "snd (grade_clause clause) =
       int (card {kw \<in> {''liable'', ''indemnify'', ''terminate'', ''breach''}. sublist kw (lower clause)})
   \<and> fst (grade_clause clause) =
       (if 2 \<le> snd (grade_clause clause) then ''High''
        else if snd (grade_clause clause) = 1 then ''Medium'' else ''Low'')
   \<and> 0 \<le> snd (grade_clause clause) \<and> snd (grade_clause clause) \<le> 4
   \<and> grade_clause ''The party shall be liable and must indemnify the other party upon breach.''
       = (''High'', 3)"
proof -
  have d: "distinct risk_keywords" by (simp add: risk_keywords_def)
  have s: "set risk_keywords = {''liable'', ''indemnify'', ''terminate'', ''breach''}"
    by (simp add: risk_keywords_def)
  have score: "snd (grade_clause clause) = int (card {kw \<in> set risk_keywords. sublist kw (lower clause)})"
    using score_count[OF d, of "\<lambda>kw. sublist kw (lower clause)"] by (simp add: grade_clause_def Let_def)
  have "card {kw \<in> set risk_keywords. sublist kw (lower clause)} \<le> card (set risk_keywords)"
    by (rule card_mono) auto
  also have "\<dots> = length risk_keywords" using d by (rule distinct_card)
  also have "\<dots> = 4" by (simp add: risk_keywords_def)
  finally have le: "snd (grade_clause clause) \<le> 4" using score by simp
  have ge: "0 \<le> snd (grade_clause clause)" using score by simp
  have imp: "fst (grade_clause clause) =
       (if 2 \<le> snd (grade_clause clause) then ''High''
        else if snd (grade_clause clause) = 1 then ''Medium'' else ''Low'')"
    by (simp add: grade_clause_def Let_def)
  have ex: "grade_clause ''The party shall be liable and must indemnify the other party upon breach.''
       = (''High'', 3)"
    by code_simp
  show ?thesis
    unfolding s[symmetric] using score le ge imp ex by blast
qed

text \<open>
  Claim C7. \<open>rewrite_clause\<close> returns one of three fixed strings: the indemnity
  suggestion if the lower-cased clause contains \<open>indemnify\<close>, otherwise the liability
  suggestion if it contains \<open>liable\<close>, otherwise \<open>Clause appears clear.\<close>; a clause with
  both keywords gets the indemnity suggestion.
\<close>

theorem rewrite_clause_order:
  "rewrite_clause clause =
     (if sublist ''indemnify'' (lower clause) then ''Consider softening indemnity to mutual responsibility.''
      else if sublist ''liable'' (lower clause) then ''Clarify or limit liability language.''
      else ''Clause appears clear.'')
   \<and> rewrite_clause ''Party A shall indemnify Party B.'' = ''Consider softening indemnity to mutual responsibility.''
   \<and> rewrite_clause ''Party A shall be liable for damages.'' = ''Clarify or limit liability language.''
   \<and> rewrite_clause ''Party A is liable and shall indemnify Party B.'' = ''Consider softening indemnity to mutual responsibility.''"
proof -
  have a: "rewrite_clause ''Party A shall indemnify Party B.'' = ''Consider softening indemnity to mutual responsibility.''"
    by code_simp
  have b: "rewrite_clause ''Party A shall be liable for damages.'' = ''Clarify or limit liability language.''"
    by code_simp
  have c: "rewrite_clause ''Party A is liable and shall indemnify Party B.'' = ''Consider softening indemnity to mutual responsibility.''"
    by code_simp
  show ?thesis using a b c by (simp add: rewrite_clause_def Let_def)
qed

section \<open>Properties of the orchestrator\<close>

lemma split_empty: "split_into_clauses [] = [[]]"
  by code_simp

text \<open>
  Claim C5. On the empty document \<open>analyze_document\<close> returns the empty list of results,
  whatever the external models do, and raises nothing.
\<close>

theorem analyze_document_empty: "analyze_document m [] = Inr []"
  by (simp add: analyze_document_def split_empty enumerate_simps strip_def)

end
